theory Spec2Isabelle
  imports Complex_Main "HOL-Library.Sublist"
begin

section \<open>The event processor service (services/event-processor/main.py)\<close>

text \<open>
  The service is asynchronous Python that talks to four collaborators: an Event Hub
  consumer, a Cosmos DB container, a Redis cache and the OpenTelemetry/structlog sinks.
  The embedding threads one state record through every coroutine. A coroutine that may
  raise returns \<open>Inl msg\<close>, where \<open>msg\<close> is \<open>str(e)\<close> of the exception, the only
  thing the source ever reads of an exception. What the collaborators answer during the
  processing of one event (random draws, clock readings, the reply of each store and
  cache command) is an input, the record \<open>env\<close>.

  Log lines keep their level and message (the structured fields are not recorded), span
  attributes keep their span and key (not the value). Probabilities and random draws are
  reals; a NaN probability is not modelled.
\<close>

subsection \<open>Values, events and documents\<close>

text \<open>
  What \<open>json.loads\<close> returns: a dict, whose values stay abstract (type \<open>'v\<close>), or a value
  of another Python type, on which \<open>.get\<close> and \<open>.keys\<close> raise AttributeError.
\<close>

datatype json_kind = KList | KStr | KInt | KFloat | KBool | KNone

datatype 'v body = Dict "string \<rightharpoonup> 'v" | NotDict json_kind

fun type_name :: "json_kind \<Rightarrow> string" where
  "type_name KList = ''list''"
| "type_name KStr = ''str''"
| "type_name KInt = ''int''"
| "type_name KFloat = ''float''"
| "type_name KBool = ''bool''"
| "type_name KNone = ''NoneType''"

definition attribute_error :: "json_kind \<Rightarrow> string \<Rightarrow> string" where
  "attribute_error k a =
     CHR 0x27 # type_name k @ CHR 0x27 # '' object has no attribute '' @ CHR 0x27 # a @ [CHR 0x27]"

text \<open>
  An event as \<open>process_single_event\<close> reads it: \<open>decoded\<close> is the outcome of
  \<open>json.loads(event.body_as_str())\<close> (\<open>Inl\<close> when the payload is malformed),
  \<open>properties\<close> the application properties.
\<close>

record 'v event =
  decoded :: "string + 'v body"
  properties :: "string \<rightharpoonup> string"

record 'v document =
  doc_id :: string
  eventType :: string
  eventData :: "'v body"
  processedAt :: string
  processingService :: string

record 'v summary =
  summary_timestamp :: string
  summary_type :: string
  summary_data :: "'v body"

text \<open>A Redis list key: its entries, head first, and its time to live in seconds.\<close>

record 'v redis_list =
  items :: "'v summary list"
  ttl :: "nat option"

subsection \<open>Configuration and observable actions\<close>

record Config =
  EVENT_HUB_CONNECTION_STRING :: string
  EVENT_HUB_NAME :: string
  CONSUMER_GROUP :: string
  COSMOS_ENDPOINT :: string
  COSMOS_KEY :: string
  COSMOS_DATABASE :: string
  COSMOS_CONTAINER :: string
  REDIS_URL :: string
  FAILURE_INJECTION_ENABLED :: bool
  LATENCY_INJECTION_PROBABILITY :: real
  ERROR_INJECTION_PROBABILITY :: real

record FailureInjectionConfig =
  enabled :: bool
  latency_probability :: real
  error_probability :: real

datatype level = Info | Warning | Error

datatype status_code = StatusOK | StatusERROR

datatype action =
    Log level string
  | SetAttribute string string
  | SetBaggage string
  | RecordException string string
  | SetStatus string status_code
  | RecordDuration
  | EventsProcessed string string
  | ErrorsCounter string
  | Sleep real
  | UpdateCheckpoint string

datatype error_type = Network | Database | Processing | Timeout

fun error_type_name :: "error_type \<Rightarrow> string" where
  "error_type_name Network = ''network''"
| "error_type_name Database = ''database''"
| "error_type_name Processing = ''processing''"
| "error_type_name Timeout = ''timeout''"

text \<open>
  What the world answers while one event is processed. A reply \<open>None\<close> is a command
  that succeeded, \<open>Some msg\<close> one that raised an exception whose string is \<open>msg\<close>.
\<close>

record env =
  latency_draw :: real
  latency_delay :: real
  error_draw :: real
  error_choice :: error_type
  work_delay :: real
  notify_delay :: real
  now_ms :: string
  processed_at :: string
  summary_ts :: string
  upsert_reply :: "string option"
  lpush_reply :: "string option"
  ltrim_reply :: "string option"
  expire_reply :: "string option"

text \<open>
  The global \<open>event_processor\<close> object, the global \<open>config\<close>, the contents of the
  Cosmos container (documents by id) and of Redis, the actions taken so far, and the
  number of \<open>process_events\<close> tasks created by \<open>asyncio.create_task\<close>.
\<close>

record 'v sys =
  redis_client :: bool
  cosmos_client :: bool
  cosmos_container :: bool
  consumer_client :: bool
  producer_client :: bool
  running :: bool
  config :: Config
  store :: "string \<rightharpoonup> 'v document"
  redis :: "string \<rightharpoonup> 'v redis_list"
  trace :: "action list"
  tasks :: nat

subsection \<open>Coroutines that may raise\<close>

type_synonym 's proc = "'s \<Rightarrow> (string + unit) \<times> 's"

definition step :: "('s \<Rightarrow> 's) \<Rightarrow> 's proc" where
  "step f s = (Inr (), f s)"

definition raise_exc :: "string \<Rightarrow> 's proc" where
  "raise_exc e s = (Inl e, s)"

definition then_do :: "'s proc \<Rightarrow> 's proc \<Rightarrow> 's proc" where
  "then_do p q s = (case p s of (Inl e, s') \<Rightarrow> (Inl e, s') | (Inr _, s') \<Rightarrow> q s')"

definition try_except :: "'s proc \<Rightarrow> (string \<Rightarrow> 's proc) \<Rightarrow> 's proc" where
  "try_except p h s = (case p s of (Inl e, s') \<Rightarrow> h e s' | (Inr x, s') \<Rightarrow> (Inr x, s'))"

definition emit :: "action list \<Rightarrow> 'v sys \<Rightarrow> 'v sys" where
  "emit acts s = s\<lparr>trace := trace s @ acts\<rparr>"

text \<open>Python's \<open>sub in s\<close> on strings.\<close>

fun str_contains :: "string \<Rightarrow> string \<Rightarrow> bool" where
  "str_contains sub [] = (sub = [])"
| "str_contains sub (c # cs) = (prefix sub (c # cs) \<or> str_contains sub cs)"

subsection \<open>The fault injector\<close>

definition maybe_inject_failure :: "env \<Rightarrow> string \<Rightarrow> 'v sys proc" where
  "maybe_inject_failure e operation s =
     (if \<not> FAILURE_INJECTION_ENABLED (config s) then (Inr (), s)
      else then_do
        (if latency_draw e < LATENCY_INJECTION_PROBABILITY (config s)
         then step (emit [Log Warning ''Injecting latency'', Sleep (latency_delay e)])
         else step id)
        (if error_draw e < ERROR_INJECTION_PROBABILITY (config s)
         then then_do (step (emit [Log Error ''Injecting error'']))
                (raise_exc (''Simulated '' @ error_type_name (error_choice e)
                              @ '' error in '' @ operation))
         else step id) s)"

definition configure_failure_injection :: "FailureInjectionConfig \<Rightarrow> 'v sys \<Rightarrow> 'v sys" where
  "configure_failure_injection new_config s =
     s\<lparr>config := (config s)
          \<lparr>FAILURE_INJECTION_ENABLED := enabled new_config,
           LATENCY_INJECTION_PROBABILITY := latency_probability new_config,
           ERROR_INJECTION_PROBABILITY := error_probability new_config\<rparr>\<rparr>"

subsection \<open>The handlers\<close>

definition send_notification :: "env \<Rightarrow> 'v sys proc" where
  "send_notification e =
     step (emit [SetAttribute ''send_notification'' ''notification.customer_id'',
                 SetAttribute ''send_notification'' ''notification.message'',
                 Sleep (notify_delay e),
                 Log Info ''Notification sent''])"

definition handle_order_created :: "env \<Rightarrow> 'v body \<Rightarrow> 'v sys proc" where
  "handle_order_created e event_data =
     (case event_data of
        NotDict k \<Rightarrow> raise_exc (attribute_error k ''get'')
      | Dict d \<Rightarrow>
          then_do (step (emit [SetAttribute ''handle_order_created'' ''order.id'',
                               SetAttribute ''handle_order_created'' ''order.customer_id'',
                               Sleep (work_delay e)]))
         (then_do (send_notification e)
                  (step (emit [Log Info ''Order created event processed'']))))"

definition handle_order_status_updated :: "env \<Rightarrow> 'v body \<Rightarrow> 'v sys proc" where
  "handle_order_status_updated e event_data =
     (case event_data of
        NotDict k \<Rightarrow> raise_exc (attribute_error k ''get'')
      | Dict d \<Rightarrow>
          step (emit [SetAttribute ''handle_order_status_updated'' ''order.id'',
                      SetAttribute ''handle_order_status_updated'' ''order.status'',
                      Sleep (work_delay e),
                      Log Info ''Order status updated event processed'']))"

definition handle_generic_event :: "env \<Rightarrow> 'v body \<Rightarrow> 'v sys proc" where
  "handle_generic_event e event_data =
     then_do (step (emit [Sleep (work_delay e)]))
       (case event_data of
          NotDict k \<Rightarrow> raise_exc (attribute_error k ''keys'')
        | Dict d \<Rightarrow> step (emit [Log Info ''Generic event processed'']))"

subsection \<open>The idempotent store write\<close>

text \<open>
  A command sent to a collaborator: it raises the exception of its reply, or takes effect.
\<close>

definition call :: "string option \<Rightarrow> ('s \<Rightarrow> 's) \<Rightarrow> 's proc" where
  "call reply effect s = (case reply of Some err \<Rightarrow> (Inl err, s) | None \<Rightarrow> (Inr (), effect s))"

text \<open>
  \<open>upsert_item\<close> of the container client: insert or overwrite, keyed by the document's
  id. \<open>fmt\<close> below is Python's formatting of a body value inside an f-string.
  \<open>now_ms\<close> is the decimal text of \<open>int(time.time() * 1000)\<close>.
\<close>

definition upsert_item :: "env \<Rightarrow> 'v document \<Rightarrow> 'v sys proc" where
  "upsert_item e document =
     call (upsert_reply e) (\<lambda>s. s\<lparr>store := (store s)(doc_id document \<mapsto> document)\<rparr>)"

definition store_processed_event ::
  "('v \<Rightarrow> string) \<Rightarrow> env \<Rightarrow> 'v body \<Rightarrow> string \<Rightarrow> 'v sys proc" where
  "store_processed_event fmt e event_data event_type =
     try_except
       (case event_data of
          NotDict k \<Rightarrow> raise_exc (attribute_error k ''get'')
        | Dict d \<Rightarrow>
            (let order_id = (case d ''OrderId'' of
                               Some v \<Rightarrow> fmt v
                             | None \<Rightarrow> ''unknown_'' @ now_ms e);
                 document = \<lparr>doc_id = event_type @ ''_'' @ order_id,
                             eventType = event_type,
                             eventData = event_data,
                             processedAt = processed_at e,
                             processingService = ''event-processor''\<rparr>
             in then_do (upsert_item e document)
                  (step (emit [SetAttribute ''store_processed_event'' ''cosmos.document_id'',
                               Log Info ''Event stored in Cosmos DB'']))))
       (\<lambda>error_str.
          if str_contains ''Conflict'' error_str \<and> str_contains ''409'' error_str
          then (case event_data of
                  NotDict k \<Rightarrow>
                    raise_exc ''local variable 'order_id' referenced before assignment''
                | Dict d \<Rightarrow>
                    step (emit [Log Warning
                                  ''Duplicate event already processed (concurrent partition)'',
                                SetAttribute ''store_processed_event''
                                  ''cosmos.duplicate_event'']))
          else step (emit [RecordException ''store_processed_event'' error_str,
                           Log Error ''Failed to store event in Cosmos DB'']))"

subsection \<open>The recent-activity cache\<close>

text \<open>
  The three Redis commands the source sends: LPUSH puts the value at the head and creates
  the key when it is missing; LTRIM keeps the entries at the indices from \<open>start\<close> to
  \<open>stop\<close> and removes a key left empty; EXPIRE sets the time to live of a key that exists.
\<close>

definition lpush :: "env \<Rightarrow> string \<Rightarrow> 'v summary \<Rightarrow> 'v sys proc" where
  "lpush e key v =
     call (lpush_reply e)
       (\<lambda>s. s\<lparr>redis := (redis s)(key \<mapsto>
                (case redis s key of
                   None \<Rightarrow> \<lparr>items = [v], ttl = None\<rparr>
                 | Some l \<Rightarrow> l\<lparr>items := v # items l\<rparr>))\<rparr>)"

definition ltrim :: "env \<Rightarrow> string \<Rightarrow> nat \<Rightarrow> nat \<Rightarrow> 'v sys proc" where
  "ltrim e key start stop =
     call (ltrim_reply e)
       (\<lambda>s. case redis s key of
               None \<Rightarrow> s
             | Some l \<Rightarrow>
                 (let kept = drop start (take (Suc stop) (items l))
                  in if kept = [] then s\<lparr>redis := (redis s)(key := None)\<rparr>
                     else s\<lparr>redis := (redis s)(key \<mapsto> l\<lparr>items := kept\<rparr>)\<rparr>))"

definition expire :: "env \<Rightarrow> string \<Rightarrow> nat \<Rightarrow> 'v sys proc" where
  "expire e key seconds =
     call (expire_reply e)
       (\<lambda>s. case redis s key of
               None \<Rightarrow> s
             | Some l \<Rightarrow> s\<lparr>redis := (redis s)(key \<mapsto> l\<lparr>ttl := Some seconds\<rparr>)\<rparr>)"

definition cache_event_summary :: "env \<Rightarrow> 'v body \<Rightarrow> string \<Rightarrow> 'v sys proc" where
  "cache_event_summary e event_data event_type =
     try_except
       (let cache_key = ''recent_events:'' @ event_type;
            event_summary = \<lparr>summary_timestamp = summary_ts e,
                              summary_type = event_type,
                              summary_data = event_data\<rparr>
        in then_do (lpush e cache_key event_summary)
          (then_do (ltrim e cache_key 0 99)
                   (expire e cache_key 3600)))
       (\<lambda>err. step (emit [Log Error ''Failed to cache event summary'']))"

subsection \<open>The per-event pipeline\<close>

definition process_single_event :: "('v \<Rightarrow> string) \<Rightarrow> env \<Rightarrow> 'v event \<Rightarrow> 'v sys proc" where
  "process_single_event fmt e event =
     try_except
       (case decoded event of
          Inl err \<Rightarrow> raise_exc err
        | Inr event_body \<Rightarrow>
            (let event_type = (case properties event ''EventType'' of
                                 Some t \<Rightarrow> t | None \<Rightarrow> ''Unknown'');
                 source = (case properties event ''Source'' of
                             Some t \<Rightarrow> t | None \<Rightarrow> ''Unknown'')
             in then_do (step (emit [SetAttribute ''process_single_event'' ''event.type'',
                                     SetAttribute ''process_single_event'' ''event.source'',
                                     SetAttribute ''process_single_event'' ''partition.id'',
                                     SetBaggage ''event.type'',
                                     SetBaggage ''event.source'',
                                     Log Info ''Processing event'']))
               (then_do (maybe_inject_failure e ''process_event'')
               (then_do (if event_type = ''OrderCreated''
                         then handle_order_created e event_body
                         else if event_type = ''OrderStatusUpdated''
                         then handle_order_status_updated e event_body
                         else handle_generic_event e event_body)
               (then_do (\<lambda>s. if cosmos_container s
                              then store_processed_event fmt e event_body event_type s
                              else (Inr (), s))
               (then_do (\<lambda>s. if redis_client s
                              then cache_event_summary e event_body event_type s
                              else (Inr (), s))
                        (step (emit [RecordDuration,
                                     EventsProcessed event_type source,
                                     SetAttribute ''process_single_event''
                                       ''processing.duration_ms'',
                                     SetStatus ''process_single_event'' StatusOK,
                                     Log Info ''Event processed successfully'']))))))))
       (\<lambda>err. step (emit [RecordException ''process_single_event'' err,
                           SetStatus ''process_single_event'' StatusERROR,
                           ErrorsCounter ''processing_error'',
                           Log Error ''Event processing failed'']))"

subsection \<open>The intake loop\<close>

text \<open>The \<open>for\<close> loop of \<open>on_event_batch\<close>: an exception of an iteration ends the loop.\<close>

fun for_events :: "('v \<Rightarrow> string) \<Rightarrow> ('v event \<times> env) list \<Rightarrow> 'v sys proc" where
  "for_events fmt [] s = (Inr (), s)"
| "for_events fmt ((event, e) # rest) s =
     (case process_single_event fmt e event s of
        (Inl err, s') \<Rightarrow> (Inl err, s')
      | (Inr _, s') \<Rightarrow> for_events fmt rest s')"

text \<open>
  \<open>UpdateCheckpoint\<close> records the call of \<open>partition_context.update_checkpoint()\<close>;
  the call's reply is the last argument.
\<close>

definition on_event_batch ::
  "('v \<Rightarrow> string) \<Rightarrow> string \<Rightarrow> ('v event \<times> env) list \<Rightarrow> string option \<Rightarrow> 'v sys proc" where
  "on_event_batch fmt partition_id event_batch checkpoint_reply =
     then_do (step (emit [SetAttribute ''process_event_batch'' ''partition.id'',
                          SetAttribute ''process_event_batch'' ''batch.size'']))
    (then_do (for_events fmt event_batch)
    (then_do (step (emit [UpdateCheckpoint partition_id]))
             (call checkpoint_reply id)))"

definition on_error :: "string \<Rightarrow> string \<Rightarrow> 'v sys proc" where
  "on_error partition_id error =
     step (emit [Log Error ''Event processing error'', ErrorsCounter ''partition_error''])"

text \<open>
  What the consumer client does inside \<open>receive_batch\<close> is its own: it hands over
  batches, each with the partition it comes from, and reports partition errors. A run of
  the client that ends is a list of such deliveries; an exception that leaves a callback
  goes to the client, which goes on with the next delivery.
\<close>

datatype 'v delivery =
    Batch string "('v event \<times> env) list" "string option"
  | PartitionError string string

fun receive_batch :: "('v \<Rightarrow> string) \<Rightarrow> 'v delivery list \<Rightarrow> 'v sys \<Rightarrow> 'v sys" where
  "receive_batch fmt [] s = s"
| "receive_batch fmt (Batch partition_id event_batch checkpoint_reply # ds) s =
     receive_batch fmt ds (snd (on_event_batch fmt partition_id event_batch checkpoint_reply s))"
| "receive_batch fmt (PartitionError partition_id error # ds) s =
     receive_batch fmt ds (snd (on_error partition_id error s))"

text \<open>
  \<open>loop_reply\<close> is how \<open>receive_batch\<close> (inside \<open>async with\<close>) ends: it returns, or
  it raises.
\<close>

definition process_events ::
  "('v \<Rightarrow> string) \<Rightarrow> 'v delivery list \<Rightarrow> string option \<Rightarrow> 'v sys proc" where
  "process_events fmt deliveries loop_reply s =
     (if \<not> consumer_client s
      then step (emit [Log Error ''Event Hub consumer client not initialized'']) s
      else then_do
             (step (\<lambda>s. emit [Log Info ''Starting event processing''] (s\<lparr>running := True\<rparr>)))
             (try_except
                (then_do (step (receive_batch fmt deliveries)) (call loop_reply id))
                (\<lambda>err. step (emit [Log Error ''Event processing loop failed'',
                                    ErrorsCounter ''consumer_error'']))) s)"

subsection \<open>Initialisation and the control endpoints\<close>

record init_env =
  from_url_reply :: "string option"
  ping_reply :: "string option"
  cosmos_reply :: "string option"
  consumer_reply :: "string option"
  producer_reply :: "string option"

definition initialize :: "init_env \<Rightarrow> 'v sys proc" where
  "initialize ie =
     try_except
       (then_do (call (from_url_reply ie) (\<lambda>s. s\<lparr>redis_client := True\<rparr>))
       (then_do (call (ping_reply ie)
                   (emit [SetAttribute ''event_processor_initialize'' ''redis.initialized'']))
       (then_do (\<lambda>s. if COSMOS_ENDPOINT (config s) \<noteq> [] \<and> COSMOS_KEY (config s) \<noteq> []
                      then call (cosmos_reply ie)
                             (\<lambda>s. emit [SetAttribute ''event_processor_initialize''
                                          ''cosmos.initialized'']
                                    (s\<lparr>cosmos_client := True, cosmos_container := True\<rparr>)) s
                      else (Inr (), s))
       (then_do (\<lambda>s. if EVENT_HUB_CONNECTION_STRING (config s) \<noteq> []
                      then then_do
                             (call (consumer_reply ie) (\<lambda>s. s\<lparr>consumer_client := True\<rparr>))
                             (call (producer_reply ie)
                                (\<lambda>s. emit [SetAttribute ''event_processor_initialize''
                                             ''eventhub.initialized'']
                                       (s\<lparr>producer_client := True\<rparr>))) s
                      else (Inr (), s))
                (step (emit [Log Info ''Event processor initialized successfully'']))))))
       (\<lambda>err. then_do
                 (step (emit [RecordException ''event_processor_initialize'' err,
                              SetStatus ''event_processor_initialize'' StatusERROR,
                              Log Error ''Failed to initialize event processor'']))
                 (raise_exc err))"

text \<open>\<open>asyncio.create_task(event_processor.process_events())\<close>.\<close>

definition create_task :: "'v sys \<Rightarrow> 'v sys" where
  "create_task s = s\<lparr>tasks := Suc (tasks s)\<rparr>"

definition startup_event :: "init_env \<Rightarrow> 'v sys proc" where
  "startup_event ie =
     then_do (initialize ie)
       (\<lambda>s. if \<not> running s
             then step (\<lambda>s. emit [Log Info ''Event processing auto-started on startup'']
                              (create_task s)) s
             else (Inr (), s))"

datatype http_exception = HTTPException nat string

definition start_processing :: "'v sys \<Rightarrow> (http_exception + string) \<times> 'v sys" where
  "start_processing s =
     (if running s
      then (Inl (HTTPException 400 ''Event processing already running''), s)
      else (Inr ''Event processing started'', create_task s))"

text \<open>
  \<open>EventProcessor()\<close> over a store and a cache, and the \<open>Config\<close> of a process that
  has none of the environment variables set.
\<close>

definition new_event_processor ::
  "Config \<Rightarrow> (string \<rightharpoonup> 'v document) \<Rightarrow> (string \<rightharpoonup> 'v redis_list) \<Rightarrow> 'v sys" where
  "new_event_processor cfg docs cache =
     \<lparr>redis_client = False, cosmos_client = False, cosmos_container = False,
      consumer_client = False, producer_client = False, running = False,
      config = cfg, store = docs, redis = cache, trace = [], tasks = 0\<rparr>"

definition default_config :: Config where
  "default_config =
     \<lparr>EVENT_HUB_CONNECTION_STRING = [], EVENT_HUB_NAME = ''orders'',
      CONSUMER_GROUP = ''$Default'', COSMOS_ENDPOINT = [], COSMOS_KEY = [],
      COSMOS_DATABASE = ''EventProcessing'', COSMOS_CONTAINER = ''ProcessedEvents'',
      REDIS_URL = ''redis://localhost:6379'', FAILURE_INJECTION_ENABLED = True,
      LATENCY_INJECTION_PROBABILITY = 1 / 10, ERROR_INJECTION_PROBABILITY = 5 / 100\<rparr>"

subsection \<open>Observations on a run\<close>

text \<open>
  The metric counters, the one counter action that closes the processing of an event
  (processed, or failed with \<open>processing_error\<close>), and the checkpoint calls.
\<close>

fun is_counter :: "action \<Rightarrow> bool" where
  "is_counter (EventsProcessed t src) = True"
| "is_counter (ErrorsCounter l) = True"
| "is_counter _ = False"

fun terminal_outcome :: "action \<Rightarrow> bool" where
  "terminal_outcome (EventsProcessed t src) = True"
| "terminal_outcome (ErrorsCounter l) = (l = ''processing_error'')"
| "terminal_outcome _ = False"

fun is_checkpoint :: "action \<Rightarrow> bool" where
  "is_checkpoint (UpdateCheckpoint p) = True"
| "is_checkpoint _ = False"

definition processor_fields ::
  "'v sys \<Rightarrow> bool \<times> bool \<times> bool \<times> bool \<times> bool \<times> bool \<times> Config \<times> nat" where
  "processor_fields s =
     (redis_client s, cosmos_client s, cosmos_container s, consumer_client s,
      producer_client s, running s, config s, tasks s)"

definition marks :: "'v sys \<Rightarrow> action list" where
  "marks s = filter (\<lambda>a. is_counter a \<or> is_checkpoint a) (trace s)"

text \<open>A coroutine keeps an observation when no run of it changes the observed value.\<close>

definition keeps :: "('s \<Rightarrow> 'a) \<Rightarrow> 's proc \<Rightarrow> bool" where
  "keeps obs p = (\<forall>s. obs (snd (p s)) = obs s)"

definition fields_and_marks ::
  "'v sys \<Rightarrow> (bool \<times> bool \<times> bool \<times> bool \<times> bool \<times> bool \<times> Config \<times> nat) \<times> action list" where
  "fields_and_marks s = (processor_fields s, marks s)"

text \<open>
  A coroutine ends with the marks \<open>fin\<close> when a run that returns has added exactly
  \<open>fin\<close> to the marks and a run that raises has added none. Two coroutines are alike
  when, from states with the same fields and marks, they end the same way in states with
  the same fields and marks.
\<close>

definition ends_with :: "action list \<Rightarrow> 'v sys proc \<Rightarrow> bool" where
  "ends_with fin p =
     (\<forall>s. marks (snd (p s)) = (case fst (p s) of Inl e \<Rightarrow> marks s | Inr u \<Rightarrow> marks s @ fin))"

definition alike :: "'v sys proc \<Rightarrow> 'v sys proc \<Rightarrow> bool" where
  "alike p q =
     (\<forall>s1 s2. fields_and_marks s1 = fields_and_marks s2 \<longrightarrow>
        fst (p s1) = fst (q s2)
        \<and> fields_and_marks (snd (p s1)) = fields_and_marks (snd (q s2)))"

subsection \<open>Sample inputs\<close>

text \<open>
  An answer of the world in which every draw is 1 (nothing is injected) and every
  command succeeds; a body with an order id; a processor with all its clients.
\<close>

definition sample_env :: env where
  "sample_env =
     \<lparr>latency_draw = 1, latency_delay = 1, error_draw = 1, error_choice = Network,
      work_delay = 1 / 5, notify_delay = 1 / 50, now_ms = ''1700000000000'',
      processed_at = ''2024-01-01T00:00:00'', summary_ts = ''2024-01-01T00:00:01'',
      upsert_reply = None, lpush_reply = None, ltrim_reply = None, expire_reply = None\<rparr>"

definition sample_body :: "string body" where
  "sample_body = Dict [''OrderId'' \<mapsto> ''O1'', ''CustomerId'' \<mapsto> ''C1'']"

definition sample_event :: "string event" where
  "sample_event =
     \<lparr>decoded = Inr sample_body,
      properties = [''EventType'' \<mapsto> ''OrderCreated'', ''Source'' \<mapsto> ''orders'']\<rparr>"

definition malformed_event :: "string event" where
  "malformed_event =
     \<lparr>decoded = Inl ''Expecting value: line 1 column 1 (char 0)'',
      properties = [''EventType'' \<mapsto> ''OrderCreated'', ''Source'' \<mapsto> ''orders'']\<rparr>"

definition ready_processor :: "string sys" where
  "ready_processor =
     (new_event_processor default_config Map.empty Map.empty)
       \<lparr>redis_client := True, cosmos_client := True, cosmos_container := True,
        consumer_client := True, producer_client := True\<rparr>"

text \<open>A cache whose list of recent \<open>OrderCreated\<close> events holds 100 entries.\<close>

definition full_cache :: "string sys" where
  "full_cache =
     ready_processor
       \<lparr>redis := [''recent_events:OrderCreated'' \<mapsto>
                   \<lparr>items = replicate 100
                              \<lparr>summary_timestamp = ''2024-01-01T00:00:00'',
                               summary_type = ''OrderCreated'',
                               summary_data = sample_body\<rparr>,
                    ttl = Some 3600\<rparr>]\<rparr>"

text \<open>
  An answer of the world in which the upsert of the store and the push of the cache
  both raise, neither with a write conflict.
\<close>

definition failing_env :: env where
  "failing_env =
     sample_env\<lparr>upsert_reply := Some ''ServiceUnavailable: 503'',
                lpush_reply := Some ''Connection refused''\<rparr>"

section \<open>Properties\<close>

lemmas proc_defs = step_def raise_exc_def then_do_def try_except_def call_def

subsection \<open>What each coroutine keeps\<close>

lemma keeps_raise: "keeps obs (raise_exc e)"
  by (simp add: keeps_def raise_exc_def)

lemma keeps_step: "(\<And>s. obs (f s) = obs s) \<Longrightarrow> keeps obs (step f)"
  by (simp add: keeps_def step_def)

lemma keeps_skip: "keeps obs (\<lambda>s. (Inr (), s))"
  by (simp add: keeps_def)

lemma keeps_call: "(\<And>s. obs (f s) = obs s) \<Longrightarrow> keeps obs (call reply f)"
  by (simp add: keeps_def call_def split: option.splits)

lemma keeps_then_do:
  assumes "keeps obs p" and "keeps obs q"
  shows "keeps obs (then_do p q)"
proof -
  have "obs (snd (then_do p q s)) = obs s" for s
  proof (cases "p s")
    case (Pair r s')
    have p: "obs s' = obs s"
      using assms(1) Pair unfolding keeps_def by (metis snd_conv)
    show ?thesis
    proof (cases r)
      case (Inl e)
      then show ?thesis using Pair p by (simp add: then_do_def)
    next
      case (Inr u)
      have "obs (snd (q s')) = obs s'"
        using assms(2) unfolding keeps_def by blast
      then show ?thesis using Pair Inr p by (simp add: then_do_def)
    qed
  qed
  then show ?thesis unfolding keeps_def by blast
qed

lemma keeps_try_except:
  assumes "keeps obs p" and "\<And>e. keeps obs (h e)"
  shows "keeps obs (try_except p h)"
proof -
  have "obs (snd (try_except p h s)) = obs s" for s
  proof (cases "p s")
    case (Pair r s')
    have p: "obs s' = obs s"
      using assms(1) Pair unfolding keeps_def by (metis snd_conv)
    show ?thesis
    proof (cases r)
      case (Inl e)
      have "obs (snd (h e s')) = obs s'"
        using assms(2) unfolding keeps_def by blast
      then show ?thesis using Pair Inl p by (simp add: try_except_def)
    next
      case (Inr u)
      then show ?thesis using Pair p by (simp add: try_except_def)
    qed
  qed
  then show ?thesis unfolding keeps_def by blast
qed

lemma keeps_cond:
  assumes "keeps obs p" and "keeps obs q"
  shows "keeps obs (\<lambda>s. if c s then p s else q s)"
  using assms unfolding keeps_def by simp

lemma keeps_fields_of: "keeps fields_and_marks p \<Longrightarrow> keeps processor_fields p"
  by (simp add: keeps_def fields_and_marks_def)

lemma keeps_marks_of: "keeps fields_and_marks p \<Longrightarrow> keeps marks p"
  by (simp add: keeps_def fields_and_marks_def)

lemma fields_emit [simp]: "processor_fields (emit acts s) = processor_fields s"
  by (simp add: processor_fields_def emit_def)

lemma marks_emit [simp]:
  "marks (emit acts s) = marks s @ filter (\<lambda>a. is_counter a \<or> is_checkpoint a) acts"
  by (simp add: marks_def emit_def)

lemma trace_emit [simp]: "trace (emit acts s) = trace s @ acts"
  by (simp add: emit_def)

lemma quiet_emit:
  "filter (\<lambda>a. is_counter a \<or> is_checkpoint a) acts = []
     \<Longrightarrow> keeps fields_and_marks (step (emit acts))"
  by (rule keeps_step) (simp add: fields_and_marks_def)

lemma quiet_maybe_inject_failure: "keeps fields_and_marks (maybe_inject_failure e operation)"
  unfolding keeps_def maybe_inject_failure_def proc_defs
  by (simp add: fields_and_marks_def)

lemma quiet_send_notification: "keeps fields_and_marks (send_notification e)"
  unfolding send_notification_def by (rule quiet_emit) simp

lemma quiet_handle_order_created: "keeps fields_and_marks (handle_order_created e event_data)"
  unfolding handle_order_created_def
  by (cases event_data)
     (simp_all add: keeps_raise keeps_then_do quiet_emit quiet_send_notification)

lemma quiet_handle_order_status_updated:
  "keeps fields_and_marks (handle_order_status_updated e event_data)"
  unfolding handle_order_status_updated_def
  by (cases event_data) (simp_all add: keeps_raise quiet_emit)

lemma quiet_handle_generic_event: "keeps fields_and_marks (handle_generic_event e event_data)"
  unfolding handle_generic_event_def
  by (cases event_data) (simp_all add: keeps_raise keeps_then_do quiet_emit)

lemma quiet_store_processed_event:
  "keeps fields_and_marks (store_processed_event fmt e event_data event_type)"
  unfolding keeps_def store_processed_event_def upsert_item_def proc_defs
  by (cases event_data)
     (simp_all add: fields_and_marks_def processor_fields_def marks_def emit_def Let_def
               split: option.splits)

lemma quiet_cache_event_summary:
  "keeps fields_and_marks (cache_event_summary e event_data event_type)"
  unfolding keeps_def cache_event_summary_def lpush_def ltrim_def expire_def proc_defs
  by (simp add: fields_and_marks_def processor_fields_def marks_def emit_def Let_def
           split: option.splits)

lemma no409_get: "\<not> str_contains ''409'' (attribute_error k ''get'')"
  by (cases k) (simp_all add: attribute_error_def)

lemma store_processed_event_returns:
  "fst (store_processed_event fmt e event_data event_type s) = Inr ()"
  by (cases event_data)
     (auto simp: store_processed_event_def upsert_item_def proc_defs no409_get Let_def
           split: option.splits)

lemma cache_event_summary_returns:
  "fst (cache_event_summary e event_data event_type s) = Inr ()"
  by (auto simp: cache_event_summary_def lpush_def ltrim_def expire_def proc_defs Let_def
           split: option.splits)

lemma process_single_event_returns:
  "fst (process_single_event fmt e event s) = Inr ()"
  unfolding process_single_event_def try_except_def step_def
  by (simp split: prod.splits sum.splits)

lemma for_events_returns: "fst (for_events fmt event_batch s) = Inr ()"
proof (induction event_batch arbitrary: s)
  case Nil
  show ?case by simp
next
  case (Cons a rest)
  obtain event e where a: "a = (event, e)" by (cases a)
  obtain r s' where r: "process_single_event fmt e event s = (r, s')"
    by (cases "process_single_event fmt e event s")
  have "r = Inr ()" using process_single_event_returns [of fmt e event s] r by simp
  then show ?case using a r Cons.IH by simp
qed

lemma for_events_append:
  "for_events fmt (xs @ ys) s = for_events fmt ys (snd (for_events fmt xs s))"
proof (induction xs arbitrary: s)
  case Nil
  show ?case by simp
next
  case (Cons a rest)
  obtain event e where a: "a = (event, e)" by (cases a)
  obtain r s' where r: "process_single_event fmt e event s = (r, s')"
    by (cases "process_single_event fmt e event s")
  have "r = Inr ()" using process_single_event_returns [of fmt e event s] r by simp
  then show ?case using a r Cons.IH by simp
qed

lemmas fields_components =
  keeps_fields_of [OF quiet_maybe_inject_failure]
  keeps_fields_of [OF quiet_handle_order_created]
  keeps_fields_of [OF quiet_handle_order_status_updated]
  keeps_fields_of [OF quiet_handle_generic_event]
  keeps_fields_of [OF quiet_store_processed_event]
  keeps_fields_of [OF quiet_cache_event_summary]

lemma fields_process_single_event:
  "keeps processor_fields (process_single_event fmt e event)"
  unfolding process_single_event_def
  by (cases "decoded event")
     (auto intro!: keeps_try_except keeps_then_do keeps_raise keeps_step keeps_cond keeps_skip
                   fields_components
           simp: Let_def)

lemma fields_for_events: "processor_fields (snd (for_events fmt event_batch s)) = processor_fields s"
proof (induction event_batch arbitrary: s)
  case Nil
  show ?case by simp
next
  case (Cons a rest)
  obtain event e where a: "a = (event, e)" by (cases a)
  obtain r s' where r: "process_single_event fmt e event s = (r, s')"
    by (cases "process_single_event fmt e event s")
  have "processor_fields s' = processor_fields s"
    using fields_process_single_event [of fmt e event] r unfolding keeps_def
    by (metis snd_conv)
  then show ?case using a r Cons.IH by (cases r) simp_all
qed

lemma fields_on_event_batch:
  "keeps processor_fields (on_event_batch fmt partition_id event_batch checkpoint_reply)"
  unfolding on_event_batch_def
  by (intro keeps_then_do keeps_step keeps_call)
     (simp_all add: keeps_def fields_for_events)

lemma fields_receive_batch:
  "processor_fields (receive_batch fmt deliveries s) = processor_fields s"
proof (induction deliveries arbitrary: s)
  case Nil
  show ?case by simp
next
  case (Cons d ds)
  show ?case
  proof (cases d)
    case (Batch partition_id event_batch checkpoint_reply)
    have "processor_fields (snd (on_event_batch fmt partition_id event_batch checkpoint_reply s))
            = processor_fields s"
      using fields_on_event_batch unfolding keeps_def by blast
    then show ?thesis using Batch Cons.IH by simp
  next
    case (PartitionError partition_id error)
    then show ?thesis using Cons.IH by (simp add: on_error_def step_def)
  qed
qed

lemma running_receive_batch: "running (receive_batch fmt deliveries s) = running s"
  using fields_receive_batch [of fmt deliveries s] by (simp add: processor_fields_def)

subsection \<open>The fault injector\<close>

text \<open>
  C9. After \<open>configure_failure_injection\<close> has set the policy with \<open>enabled = False\<close>,
  a call of \<open>maybe_inject_failure\<close> returns without an exception and leaves the state as
  it was (no latency warning, no sleep, no error), whatever the operation name and the
  random draws; the state being the same, so does every later call.
\<close>

theorem disabled_injection_is_noop:
  assumes "\<not> enabled new_config"
  shows "maybe_inject_failure e operation (configure_failure_injection new_config s)
           = (Inr (), configure_failure_injection new_config s)"
  using assms by (simp add: maybe_inject_failure_def configure_failure_injection_def)

theorem disabled_injection_is_noop_witness:
  "\<not> enabled \<lparr>enabled = False, latency_probability = 1, error_probability = 1\<rparr>
   \<and> maybe_inject_failure (sample_env\<lparr>latency_draw := 0, error_draw := 0\<rparr>) ''process_event''
       (configure_failure_injection
          \<lparr>enabled = False, latency_probability = 1, error_probability = 1\<rparr> ready_processor)
     = (Inr (), configure_failure_injection
          \<lparr>enabled = False, latency_probability = 1, error_probability = 1\<rparr> ready_processor)"
  using disabled_injection_is_noop
          [of "\<lparr>enabled = False, latency_probability = 1, error_probability = 1\<rparr>"
              "sample_env\<lparr>latency_draw := 0, error_draw := 0\<rparr>" "''process_event''"
              ready_processor]
  by simp

subsection \<open>The control endpoints\<close>

text \<open>
  C7. A call of \<open>start_processing\<close> while \<open>running\<close> is true is rejected with the
  HTTP exception (status 400) "Event processing already running" and changes nothing:
  \<open>running\<close> stays true and no task is created. Otherwise the call answers "Event
  processing started" and creates one background task for \<open>process_events\<close>.
\<close>

theorem start_processing_guard:
  "(running s \<longrightarrow>
      start_processing s = (Inl (HTTPException 400 ''Event processing already running''), s))
   \<and> (\<not> running s \<longrightarrow>
      fst (start_processing s) = Inr ''Event processing started''
      \<and> tasks (snd (start_processing s)) = Suc (tasks s)
      \<and> running (snd (start_processing s)) = running s)"
  by (simp add: start_processing_def create_task_def)

theorem start_processing_guard_witness:
  "running (ready_processor\<lparr>running := True\<rparr>)
   \<and> start_processing (ready_processor\<lparr>running := True\<rparr>)
       = (Inl (HTTPException 400 ''Event processing already running''),
          ready_processor\<lparr>running := True\<rparr>)
   \<and> \<not> running ready_processor
   \<and> fst (start_processing ready_processor) = Inr ''Event processing started''
   \<and> tasks (snd (start_processing ready_processor)) = Suc (tasks ready_processor)"
  using start_processing_guard [of "ready_processor\<lparr>running := True\<rparr>"]
        start_processing_guard [of ready_processor]
  by (simp add: ready_processor_def new_event_processor_def)

subsection \<open>The idempotent store write\<close>

text \<open>
  C4. When the upsert of a store write raises an exception that the source takes for a
  write conflict (its string contains both "Conflict" and "409"),
  \<open>store_processed_event\<close> returns without raising; all it does is log, at warning
  level, "Duplicate event already processed (concurrent partition)" and set the span
  attribute \<open>cosmos.duplicate_event\<close>. No exception is recorded and no error is logged.
\<close>

theorem conflict_is_treated_as_success:
  assumes "upsert_reply e = Some error_str"
      and "str_contains ''Conflict'' error_str" and "str_contains ''409'' error_str"
  shows "store_processed_event fmt e (Dict d) event_type s
           = (Inr (), emit [Log Warning ''Duplicate event already processed (concurrent partition)'',
                            SetAttribute ''store_processed_event'' ''cosmos.duplicate_event''] s)"
  using assms
  by (simp add: store_processed_event_def upsert_item_def proc_defs Let_def)

theorem conflict_is_treated_as_success_witness:
  "upsert_reply (sample_env\<lparr>upsert_reply := Some ''(Conflict) Status code: 409''\<rparr>)
     = Some ''(Conflict) Status code: 409''
   \<and> str_contains ''Conflict'' ''(Conflict) Status code: 409''
   \<and> str_contains ''409'' ''(Conflict) Status code: 409''
   \<and> store_processed_event (\<lambda>v. v)
        (sample_env\<lparr>upsert_reply := Some ''(Conflict) Status code: 409''\<rparr>)
        (Dict [''OrderId'' \<mapsto> ''O1'']) ''OrderCreated'' ready_processor
      = (Inr (), emit [Log Warning ''Duplicate event already processed (concurrent partition)'',
                       SetAttribute ''store_processed_event'' ''cosmos.duplicate_event'']
                   ready_processor)"
proof -
  have a: "upsert_reply (sample_env\<lparr>upsert_reply := Some ''(Conflict) Status code: 409''\<rparr>)
             = Some ''(Conflict) Status code: 409''"
    by simp
  have b: "str_contains ''Conflict'' ''(Conflict) Status code: 409''" by simp
  have c: "str_contains ''409'' ''(Conflict) Status code: 409''" by simp
  show ?thesis
    using conflict_is_treated_as_success [OF a b c] a b c by blast
qed

subsection \<open>The run state\<close>

text \<open>
  C6, as the spec states it: whenever \<open>process_events\<close> exits, \<open>running\<close> is false
  again. The source sets \<open>running\<close> to true and has no assignment that resets it: with
  a consumer client, \<open>running\<close> is true after the loop has ended, by an exception of
  \<open>receive_batch\<close> as well as by its return.
\<close>

theorem loop_exit_leaves_running_counterexample:
  "running (snd (process_events (\<lambda>v. v) [] (Some ''connection lost'') ready_processor))
   \<and> running (snd (process_events (\<lambda>v. v) [] None ready_processor))"
  by (simp add: process_events_def proc_defs ready_processor_def new_event_processor_def
                emit_def)

text \<open>
  C6, amended: \<open>process_events\<close> never sets \<open>running\<close> back to false. After it has
  exited, normally or on a fatal error of the loop (which is logged and counted, not
  raised), \<open>running\<close> is true when the consumer client exists, and is what it was
  before when the consumer client is missing. With a consumer client, what the exit adds
  to the actions of the loop is nothing when \<open>receive_batch\<close> returns, and the error
  log "Event processing loop failed" followed by the \<open>consumer_error\<close> count when it
  raises; without one, the call only logs the error "Event Hub consumer client not
  initialized".
\<close>

theorem running_stays_true_after_the_loop:
  "running (snd (process_events fmt deliveries loop_reply s)) = (consumer_client s \<or> running s)
   \<and> fst (process_events fmt deliveries loop_reply s) = Inr ()
   \<and> (consumer_client s \<longrightarrow>
        trace (snd (process_events fmt deliveries loop_reply s))
          = trace (receive_batch fmt deliveries
                     (emit [Log Info ''Starting event processing''] (s\<lparr>running := True\<rparr>)))
            @ (case loop_reply of
                 None \<Rightarrow> []
               | Some err \<Rightarrow> [Log Error ''Event processing loop failed'',
                              ErrorsCounter ''consumer_error'']))
   \<and> (\<not> consumer_client s \<longrightarrow>
        snd (process_events fmt deliveries loop_reply s)
          = emit [Log Error ''Event Hub consumer client not initialized''] s)"
  by (cases loop_reply)
     (simp_all add: process_events_def proc_defs running_receive_batch emit_def)

theorem running_stays_true_after_the_loop_witness:
  "consumer_client ready_processor \<and> \<not> running ready_processor
   \<and> running (snd (process_events (\<lambda>v. v) [Batch ''0'' [(sample_event, sample_env)] None]
                   (Some ''connection lost'') ready_processor))
   \<and> trace (snd (process_events (\<lambda>v. v) [Batch ''0'' [(sample_event, sample_env)] None]
                   (Some ''connection lost'') ready_processor))
       = trace (receive_batch (\<lambda>v. v) [Batch ''0'' [(sample_event, sample_env)] None]
                  (emit [Log Info ''Starting event processing'']
                     (ready_processor\<lparr>running := True\<rparr>)))
         @ [Log Error ''Event processing loop failed'', ErrorsCounter ''consumer_error'']"
proof -
  have c: "consumer_client ready_processor" and r: "\<not> running ready_processor"
    by (simp_all add: ready_processor_def new_event_processor_def)
  from running_stays_true_after_the_loop
          [of "\<lambda>v. v" "[Batch ''0'' [(sample_event, sample_env)] None]"
              "Some ''connection lost''" ready_processor]
  show ?thesis using c r by simp
qed

subsection \<open>Initialisation\<close>

text \<open>
  C10. On a fresh processor, \<open>initialize\<close> raises when \<open>Redis.from_url\<close> or the ping
  of Redis raises, and so does \<open>startup_event\<close>. When the Redis calls and the client
  constructors succeed, the Cosmos container client exists exactly when the endpoint and
  the key are both configured, and the consumer client exactly when the connection string
  is: no other reply of the world is read. With the Cosmos and Event Hub configuration
  absent, startup succeeds, and \<open>process_events\<close> then returns at once without an
  exception, having only logged that the consumer client is not initialised, with
  \<open>running\<close> still false.
\<close>

theorem initialize_needs_only_the_cache:
  "(let s0 = new_event_processor cfg docs cache;
        s1 = snd (initialize ie s0);
        s2 = snd (startup_event ie s0)
    in (from_url_reply ie = Some err \<longrightarrow> fst (initialize ie s0) = Inl err)
     \<and> (from_url_reply ie = None \<and> ping_reply ie = Some err \<longrightarrow>
          fst (initialize ie s0) = Inl err \<and> fst (startup_event ie s0) = Inl err)
     \<and> (from_url_reply ie = None \<and> ping_reply ie = None \<and> cosmos_reply ie = None
          \<and> consumer_reply ie = None \<and> producer_reply ie = None \<longrightarrow>
          fst (initialize ie s0) = Inr ()
          \<and> cosmos_container s1 = (COSMOS_ENDPOINT cfg \<noteq> [] \<and> COSMOS_KEY cfg \<noteq> [])
          \<and> consumer_client s1 = (EVENT_HUB_CONNECTION_STRING cfg \<noteq> []))
     \<and> (from_url_reply ie = None \<and> ping_reply ie = None
          \<and> (COSMOS_ENDPOINT cfg = [] \<or> COSMOS_KEY cfg = [])
          \<and> EVENT_HUB_CONNECTION_STRING cfg = [] \<longrightarrow>
          fst (startup_event ie s0) = Inr ()
          \<and> \<not> cosmos_container s2 \<and> \<not> consumer_client s2
          \<and> fst (process_events fmt deliveries loop_reply s2) = Inr ()
          \<and> trace (snd (process_events fmt deliveries loop_reply s2))
              = trace s2 @ [Log Error ''Event Hub consumer client not initialized'']
          \<and> \<not> running (snd (process_events fmt deliveries loop_reply s2))))"
  by (auto simp: Let_def initialize_def startup_event_def process_events_def proc_defs
                 new_event_processor_def emit_def create_task_def)

theorem initialize_needs_only_the_cache_witness:
  "fst (initialize \<lparr>from_url_reply = None, ping_reply = Some ''Connection refused'',
                     cosmos_reply = None, consumer_reply = None, producer_reply = None\<rparr>
          (new_event_processor default_config Map.empty Map.empty :: string sys))
     = Inl ''Connection refused''
   \<and> fst (startup_event \<lparr>from_url_reply = None, ping_reply = None,
                     cosmos_reply = None, consumer_reply = None, producer_reply = None\<rparr>
          (new_event_processor default_config Map.empty Map.empty :: string sys))
     = Inr ()
   \<and> \<not> running (snd (process_events (\<lambda>v. v) [] None
          (snd (startup_event \<lparr>from_url_reply = None, ping_reply = None,
                     cosmos_reply = None, consumer_reply = None, producer_reply = None\<rparr>
          (new_event_processor default_config Map.empty Map.empty :: string sys)))))"
proof -
  have cfg: "COSMOS_ENDPOINT default_config = []"
            "EVENT_HUB_CONNECTION_STRING default_config = []"
    by (simp_all add: default_config_def)
  show ?thesis
    using cfg
      initialize_needs_only_the_cache
          [where ie = "\<lparr>from_url_reply = None, ping_reply = Some ''Connection refused'',
                cosmos_reply = None, consumer_reply = None, producer_reply = None\<rparr>"
             and err = "''Connection refused''" and cfg = default_config
             and docs = "Map.empty :: string \<rightharpoonup> string document"
             and cache = "Map.empty :: string \<rightharpoonup> string redis_list"
             and fmt = "\<lambda>v. v" and deliveries = "[]" and loop_reply = None]
      initialize_needs_only_the_cache
          [where ie = "\<lparr>from_url_reply = None, ping_reply = None,
                cosmos_reply = None, consumer_reply = None, producer_reply = None\<rparr>"
             and err = "''Connection refused''" and cfg = default_config
             and docs = "Map.empty :: string \<rightharpoonup> string document"
             and cache = "Map.empty :: string \<rightharpoonup> string redis_list"
             and fmt = "\<lambda>v. v" and deliveries = "[]" and loop_reply = None]
    by (simp add: Let_def)
qed

subsection \<open>The recent-activity cache\<close>

text \<open>
  C8, as the spec states it: whatever the writes, the list of a key never has more than
  100 entries and each write resets the expiry. The three Redis commands are sent one
  after the other, each of them may raise, and an exception skips the commands that
  follow: when the push succeeds and the trim raises, a list of 100 entries is left with
  101, and the write still returns without an exception.
\<close>

theorem untrimmed_push_counterexample:
  "map_option (\<lambda>l. length (items l)) (redis full_cache ''recent_events:OrderCreated'') = Some 100
   \<and> fst (cache_event_summary (sample_env\<lparr>ltrim_reply := Some ''Timeout reading from socket''\<rparr>)
            sample_body ''OrderCreated'' full_cache) = Inr ()
   \<and> map_option (\<lambda>l. length (items l))
       (redis (snd (cache_event_summary
                      (sample_env\<lparr>ltrim_reply := Some ''Timeout reading from socket''\<rparr>)
                      sample_body ''OrderCreated'' full_cache))
          ''recent_events:OrderCreated'') = Some 101"
  by (simp add: cache_event_summary_def lpush_def ltrim_def expire_def proc_defs Let_def
                full_cache_def sample_env_def emit_def)

text \<open>What a write does when its three commands succeed.\<close>

lemma cache_write_ok:
  assumes "lpush_reply e = None" and "ltrim_reply e = None" and "expire_reply e = None"
  shows "cache_event_summary e event_data event_type s =
           (Inr (), s\<lparr>redis := (redis s)(''recent_events:'' @ event_type \<mapsto>
              \<lparr>items = take 100
                  (\<lparr>summary_timestamp = summary_ts e, summary_type = event_type,
                    summary_data = event_data\<rparr>
                   # (case redis s (''recent_events:'' @ event_type) of
                        None \<Rightarrow> [] | Some l \<Rightarrow> items l)),
               ttl = Some 3600\<rparr>)\<rparr>)"
proof (cases "redis s (''recent_events:'' @ event_type)")
  case None
  then show ?thesis
    using assms
    by (simp add: cache_event_summary_def lpush_def ltrim_def expire_def proc_defs Let_def)
next
  case (Some l)
  obtain xs t where l: "l = \<lparr>items = xs, ttl = t\<rparr>" by (cases l) simp
  show ?thesis
    using assms Some l
    by (simp add: cache_event_summary_def lpush_def ltrim_def expire_def proc_defs Let_def)
qed

text \<open>
  C8, amended: for every event type and any number of writes whose three cache commands
  all succeed, the list of key \<open>recent_events:{eventType}\<close> holds the new entries,
  newest first, followed by the entries it had, cut to the first 100; so it never has
  more than 100 entries, and the expiry of the key is 3600 seconds after each write.
\<close>

theorem successful_writes_bound_the_list:
  assumes "\<forall>w \<in> set writes. lpush_reply (fst w) = None \<and> ltrim_reply (fst w) = None
                              \<and> expire_reply (fst w) = None"
      and "writes \<noteq> []"
  shows "\<exists>l. redis (fold (\<lambda>w s. snd (cache_event_summary (fst w) (snd w) event_type s)) writes s)
               (''recent_events:'' @ event_type) = Some l
             \<and> items l = take 100
                 (rev (map (\<lambda>w. \<lparr>summary_timestamp = summary_ts (fst w),
                                  summary_type = event_type, summary_data = snd w\<rparr>) writes)
                  @ (case redis s (''recent_events:'' @ event_type) of
                       None \<Rightarrow> [] | Some l0 \<Rightarrow> items l0))
             \<and> length (items l) \<le> 100
             \<and> ttl l = Some 3600"
  using assms
proof (induction writes arbitrary: s rule: rev_induct)
  case Nil
  then show ?case by simp
next
  case (snoc w ws)
  have ok: "lpush_reply (fst w) = None" "ltrim_reply (fst w) = None" "expire_reply (fst w) = None"
    using snoc.prems(1) by simp_all
  define s' where "s' = fold (\<lambda>w s. snd (cache_event_summary (fst w) (snd w) event_type s)) ws s"
  define key where "key = ''recent_events:'' @ event_type"
  define old where "old = (case redis s key of None \<Rightarrow> [] | Some l0 \<Rightarrow> items l0)"
  define cur where "cur = (case redis s' key of None \<Rightarrow> [] | Some l \<Rightarrow> items l)"
  define mk where "mk = (\<lambda>w :: env \<times> 'a body. \<lparr>summary_timestamp = summary_ts (fst w),
                   summary_type = event_type, summary_data = snd w\<rparr>)"
  have cur: "cur = (if ws = [] then old else take 100 (rev (map mk ws) @ old))"
  proof (cases "ws = []")
    case True
    then show ?thesis by (simp add: cur_def old_def s'_def)
  next
    case False
    have "\<forall>w \<in> set ws. lpush_reply (fst w) = None \<and> ltrim_reply (fst w) = None
                              \<and> expire_reply (fst w) = None"
      using snoc.prems(1) by simp
    from snoc.IH [OF this False, of s]
    obtain l where "redis s' key = Some l" and "items l = take 100 (rev (map mk ws) @ old)"
      unfolding s'_def key_def old_def mk_def by blast
    then show ?thesis using False by (simp add: cur_def)
  qed
  have step: "redis (snd (cache_event_summary (fst w) (snd w) event_type s')) key
              = Some \<lparr>items = take 100 (mk w # cur), ttl = Some 3600\<rparr>"
    by (simp add: cache_write_ok [OF ok] key_def cur_def mk_def)
  have tk: "take 100 (x # take 100 ys) = take 100 (x # ys)" for x :: "'a summary" and ys
    by (simp add: take_Cons')
  have "take 100 (mk w # cur) = take 100 (rev (map mk (ws @ [w])) @ old)"
  proof (cases "ws = []")
    case True
    then show ?thesis using cur by simp
  next
    case False
    then have "cur = take 100 (rev (map mk ws) @ old)" using cur by simp
    then have "take 100 (mk w # cur) = take 100 (mk w # (rev (map mk ws) @ old))"
      by (simp only: tk)
    then show ?thesis by simp
  qed
  then have "\<exists>l. redis (snd (cache_event_summary (fst w) (snd w) event_type s')) key = Some l
             \<and> items l = take 100 (rev (map mk (ws @ [w])) @ old)
             \<and> length (items l) \<le> 100 \<and> ttl l = Some 3600"
    using step by simp
  then show ?case
    unfolding s'_def key_def old_def mk_def by simp
qed

theorem successful_writes_bound_the_list_witness:
  "map_option (\<lambda>l. (length (items l) \<le> 100, ttl l))
     (redis (fold (\<lambda>w s. snd (cache_event_summary (fst w) (snd w) ''OrderCreated'' s))
               [(sample_env, sample_body)] full_cache) ''recent_events:OrderCreated'')
   = Some (True, Some 3600)"
proof -
  have "\<forall>w \<in> set [(sample_env, sample_body)]. lpush_reply (fst w) = None
          \<and> ltrim_reply (fst w) = None \<and> expire_reply (fst w) = None"
    by (simp add: sample_env_def)
  from successful_writes_bound_the_list [OF this, of "''OrderCreated''" full_cache]
  show ?thesis by auto
qed

subsection \<open>The counters and checkpoint calls of a run\<close>

lemmas marks_components =
  keeps_marks_of [OF quiet_maybe_inject_failure]
  keeps_marks_of [OF quiet_handle_order_created]
  keeps_marks_of [OF quiet_handle_order_status_updated]
  keeps_marks_of [OF quiet_handle_generic_event]
  keeps_marks_of [OF quiet_store_processed_event]
  keeps_marks_of [OF quiet_cache_event_summary]

lemma ends_with_emit:
  "filter (\<lambda>a. is_counter a \<or> is_checkpoint a) acts = fin \<Longrightarrow> ends_with fin (step (emit acts))"
  by (auto simp: ends_with_def step_def)

lemma ends_with_raise: "ends_with fin (raise_exc e)"
  by (simp add: ends_with_def raise_exc_def)

lemma ends_with_then_do:
  assumes "keeps marks p" and "ends_with fin q"
  shows "ends_with fin (then_do p q)"
proof -
  have "marks (snd (then_do p q s))
          = (case fst (then_do p q s) of Inl e \<Rightarrow> marks s | Inr u \<Rightarrow> marks s @ fin)" for s
  proof (cases "p s")
    case (Pair r s')
    have p: "marks s' = marks s"
      using assms(1) Pair unfolding keeps_def by (metis snd_conv)
    show ?thesis
    proof (cases r)
      case (Inl e)
      then show ?thesis using Pair p by (simp add: then_do_def)
    next
      case (Inr u)
      have "marks (snd (q s')) = (case fst (q s') of Inl e \<Rightarrow> marks s' | Inr u \<Rightarrow> marks s' @ fin)"
        using assms(2) unfolding ends_with_def by blast
      then show ?thesis using Pair Inr p by (simp add: then_do_def split: sum.splits)
    qed
  qed
  then show ?thesis unfolding ends_with_def by blast
qed

lemma marks_try_except:
  assumes "ends_with fin p"
  shows "try_except p (\<lambda>err. step (emit (h err))) s =
           (Inr (), snd (try_except p (\<lambda>err. step (emit (h err))) s))
         \<and> (marks (snd (try_except p (\<lambda>err. step (emit (h err))) s)) = marks s @ fin
            \<or> (\<exists>err. marks (snd (try_except p (\<lambda>err. step (emit (h err))) s))
                       = marks s @ filter (\<lambda>a. is_counter a \<or> is_checkpoint a) (h err)))"
proof (cases "p s")
  case (Pair r s')
  have m: "marks s' = (case r of Inl e \<Rightarrow> marks s | Inr u \<Rightarrow> marks s @ fin)"
    using assms Pair unfolding ends_with_def by (metis fst_conv snd_conv)
  show ?thesis
  proof (cases r)
    case (Inl e)
    then show ?thesis using Pair m by (auto simp: try_except_def step_def)
  next
    case (Inr u)
    then show ?thesis using Pair m by (simp add: try_except_def)
  qed
qed

lemma marks_process_single_event:
  "\<exists>m. marks (snd (process_single_event fmt e event s)) = marks s @ [m]
       \<and> terminal_outcome m \<and> \<not> is_checkpoint m"
proof -
  obtain fin where fin: "ends_with fin
       (case decoded event of
          Inl err \<Rightarrow> raise_exc err
        | Inr event_body \<Rightarrow>
            (let event_type = (case properties event ''EventType'' of
                                 Some t \<Rightarrow> t | None \<Rightarrow> ''Unknown'');
                 source = (case properties event ''Source'' of
                             Some t \<Rightarrow> t | None \<Rightarrow> ''Unknown'')
             in then_do (step (emit [SetAttribute ''process_single_event'' ''event.type'',
                                     SetAttribute ''process_single_event'' ''event.source'',
                                     SetAttribute ''process_single_event'' ''partition.id'',
                                     SetBaggage ''event.type'',
                                     SetBaggage ''event.source'',
                                     Log Info ''Processing event'']))
               (then_do (maybe_inject_failure e ''process_event'')
               (then_do (if event_type = ''OrderCreated''
                         then handle_order_created e event_body
                         else if event_type = ''OrderStatusUpdated''
                         then handle_order_status_updated e event_body
                         else handle_generic_event e event_body)
               (then_do (\<lambda>s. if cosmos_container s
                              then store_processed_event fmt e event_body event_type s
                              else (Inr (), s))
               (then_do (\<lambda>s. if redis_client s
                              then cache_event_summary e event_body event_type s
                              else (Inr (), s))
                        (step (emit [RecordDuration,
                                     EventsProcessed event_type source,
                                     SetAttribute ''process_single_event''
                                       ''processing.duration_ms'',
                                     SetStatus ''process_single_event'' StatusOK,
                                     Log Info ''Event processed successfully'']))))))))"
     and one: "\<exists>m. fin = [m] \<and> terminal_outcome m \<and> \<not> is_checkpoint m"
  proof (cases "decoded event")
    case (Inl err)
    show ?thesis
      by (rule that [of "[ErrorsCounter ''processing_error'']"])
         (simp_all add: Inl ends_with_raise)
  next
    case (Inr b)
    show ?thesis
      by (rule that [of "[EventsProcessed
              (case properties event ''EventType'' of Some t \<Rightarrow> t | None \<Rightarrow> ''Unknown'')
              (case properties event ''Source'' of Some t \<Rightarrow> t | None \<Rightarrow> ''Unknown'')]"])
         (auto simp: Inr Let_def
               intro!: ends_with_then_do ends_with_emit keeps_step keeps_cond keeps_skip
                       marks_components)
  qed
  from marks_try_except [OF fin, of "\<lambda>err. [RecordException ''process_single_event'' err,
                           SetStatus ''process_single_event'' StatusERROR,
                           ErrorsCounter ''processing_error'',
                           Log Error ''Event processing failed'']" s]
  show ?thesis
    using one unfolding process_single_event_def by auto
qed

lemma marks_for_events:
  "\<exists>ms. marks (snd (for_events fmt event_batch s)) = marks s @ ms
        \<and> length ms = length event_batch
        \<and> filter terminal_outcome ms = ms \<and> filter is_checkpoint ms = []"
proof (induction event_batch arbitrary: s)
  case Nil
  show ?case by simp
next
  case (Cons a rest)
  obtain event e where a: "a = (event, e)" by (cases a)
  obtain r s' where r: "process_single_event fmt e event s = (r, s')"
    by (cases "process_single_event fmt e event s")
  have ret: "r = Inr ()" using process_single_event_returns [of fmt e event s] r by simp
  obtain m where m: "marks s' = marks s @ [m]" "terminal_outcome m" "\<not> is_checkpoint m"
    using marks_process_single_event [of fmt e event s] r by auto
  obtain ms where ms: "marks (snd (for_events fmt rest s')) = marks s' @ ms"
      "length ms = length rest" "filter terminal_outcome ms = ms" "filter is_checkpoint ms = []"
    using Cons.IH [of s'] by blast
  have "marks (snd (for_events fmt (a # rest) s)) = marks s @ (m # ms)"
    using a r ret m(1) ms(1) by simp
  moreover have "length (m # ms) = length (a # rest)" using ms(2) by simp
  moreover have "filter terminal_outcome (m # ms) = m # ms" using m(2) ms(3) by simp
  moreover have "filter is_checkpoint (m # ms) = []" using m(3) ms(4) by simp
  ultimately show ?case by blast
qed

lemma on_event_batch_unfold:
  "on_event_batch fmt partition_id event_batch checkpoint_reply s =
     ((case checkpoint_reply of None \<Rightarrow> Inr () | Some err \<Rightarrow> Inl err),
      emit [UpdateCheckpoint partition_id]
        (snd (for_events fmt event_batch
                (emit [SetAttribute ''process_event_batch'' ''partition.id'',
                       SetAttribute ''process_event_batch'' ''batch.size''] s))))"
proof -
  let ?s1 = "emit [SetAttribute ''process_event_batch'' ''partition.id'',
                   SetAttribute ''process_event_batch'' ''batch.size''] s"
  obtain r s2 where r: "for_events fmt event_batch ?s1 = (r, s2)"
    by (cases "for_events fmt event_batch ?s1")
  have "r = Inr ()" using for_events_returns [of fmt event_batch ?s1] r by simp
  then show ?thesis
    using r by (cases checkpoint_reply) (simp_all add: on_event_batch_def proc_defs)
qed

subsection \<open>The checkpoint of a batch\<close>

text \<open>
  C2. For every batch, \<open>on_event_batch\<close> calls \<open>update_checkpoint\<close> of the partition
  exactly once, as its last action: among the counter and checkpoint actions the callback
  adds, the checkpoint call comes after one terminal outcome per event of the batch (the
  event counted as processed, or its failure counted as \<open>processing_error\<close>), and no
  other checkpoint call is among them. So the checkpoint is never advanced inside the
  batch and the call is never skipped, whatever happens to the events. The callback ends
  as the checkpoint call does: it returns when the call returns and raises what the call
  raises.
\<close>

theorem checkpoint_once_after_the_batch:
  "(\<exists>ms. marks (snd (on_event_batch fmt partition_id event_batch checkpoint_reply s))
            = marks s @ ms @ [UpdateCheckpoint partition_id]
         \<and> length ms = length event_batch
         \<and> filter terminal_outcome ms = ms \<and> filter is_checkpoint ms = [])
   \<and> last (trace (snd (on_event_batch fmt partition_id event_batch checkpoint_reply s)))
       = UpdateCheckpoint partition_id
   \<and> fst (on_event_batch fmt partition_id event_batch checkpoint_reply s)
       = (case checkpoint_reply of None \<Rightarrow> Inr () | Some err \<Rightarrow> Inl err)"
proof -
  let ?s1 = "emit [SetAttribute ''process_event_batch'' ''partition.id'',
                   SetAttribute ''process_event_batch'' ''batch.size''] s"
  obtain ms where ms: "marks (snd (for_events fmt event_batch ?s1)) = marks ?s1 @ ms"
      "length ms = length event_batch" "filter terminal_outcome ms = ms"
      "filter is_checkpoint ms = []"
    using marks_for_events [of fmt event_batch ?s1] by blast
  have "marks (snd (on_event_batch fmt partition_id event_batch checkpoint_reply s))
          = marks s @ ms @ [UpdateCheckpoint partition_id]"
    using ms(1) by (simp add: on_event_batch_unfold)
  then show ?thesis
    using ms(2,3,4) by (auto simp: on_event_batch_unfold)
qed

theorem checkpoint_once_after_the_batch_witness:
  "\<exists>ms. marks (snd (on_event_batch (\<lambda>v. v) ''0''
                      [(sample_event, sample_env), (malformed_event, sample_env)] None
                      ready_processor))
            = marks ready_processor @ ms @ [UpdateCheckpoint ''0'']
        \<and> length ms = 2
        \<and> filter terminal_outcome ms = ms \<and> filter is_checkpoint ms = []"
  using checkpoint_once_after_the_batch
          [of "\<lambda>v. v" "''0''" "[(sample_event, sample_env), (malformed_event, sample_env)]"
              None ready_processor]
  by (auto simp: numeral_2_eq_2)

subsection \<open>Malformed payloads\<close>

lemma process_single_event_malformed:
  "decoded event = Inl err \<Longrightarrow>
   process_single_event fmt e event s =
     (Inr (), emit [RecordException ''process_single_event'' err,
                    SetStatus ''process_single_event'' StatusERROR,
                    ErrorsCounter ''processing_error'',
                    Log Error ''Event processing failed''] s)"
  by (simp add: process_single_event_def proc_defs)

text \<open>
  C3. An event whose payload \<open>json.loads\<close> cannot decode fails alone:
  \<open>process_single_event\<close> returns without an exception, having recorded the exception
  on the span, set the span status to error, counted one \<open>processing_error\<close> and logged
  the error "Event processing failed". In a batch, the events after it are processed as
  they would be from that state, and the batch ends with its checkpoint call.
\<close>

theorem malformed_event_fails_alone:
  assumes "decoded event = Inl err"
  shows "process_single_event fmt e event s =
           (Inr (), emit [RecordException ''process_single_event'' err,
                          SetStatus ''process_single_event'' StatusERROR,
                          ErrorsCounter ''processing_error'',
                          Log Error ''Event processing failed''] s)
         \<and> for_events fmt (earlier @ (event, e) # later) s =
             for_events fmt later
               (emit [RecordException ''process_single_event'' err,
                      SetStatus ''process_single_event'' StatusERROR,
                      ErrorsCounter ''processing_error'',
                      Log Error ''Event processing failed'']
                  (snd (for_events fmt earlier s)))
         \<and> last (trace (snd (on_event_batch fmt partition_id (earlier @ (event, e) # later)
                               checkpoint_reply s)))
             = UpdateCheckpoint partition_id"
  using assms
  by (simp add: process_single_event_malformed for_events_append on_event_batch_unfold)

theorem malformed_event_fails_alone_witness:
  "decoded malformed_event = Inl ''Expecting value: line 1 column 1 (char 0)''
   \<and> for_events (\<lambda>v. v) ([(sample_event, sample_env)] @ (malformed_event, sample_env)
                           # [(sample_event, sample_env)]) ready_processor =
       for_events (\<lambda>v. v) [(sample_event, sample_env)]
         (emit [RecordException ''process_single_event''
                  ''Expecting value: line 1 column 1 (char 0)'',
                SetStatus ''process_single_event'' StatusERROR,
                ErrorsCounter ''processing_error'',
                Log Error ''Event processing failed'']
            (snd (for_events (\<lambda>v. v) [(sample_event, sample_env)] ready_processor)))"
proof -
  have d: "decoded malformed_event = Inl ''Expecting value: line 1 column 1 (char 0)''"
    by (simp add: malformed_event_def)
  from malformed_event_fails_alone [OF d, of "\<lambda>v. v" sample_env ready_processor
         "[(sample_event, sample_env)]" "[(sample_event, sample_env)]"]
  show ?thesis using d by blast
qed

subsection \<open>Idempotence under redelivery\<close>

lemma store_after_write:
  assumes "d ''OrderId'' = Some v"
  shows "store (snd (store_processed_event fmt e (Dict d) event_type s)) =
           (case upsert_reply e of
              None \<Rightarrow> (store s)(event_type @ ''_'' @ fmt v \<mapsto>
                         \<lparr>doc_id = event_type @ ''_'' @ fmt v, eventType = event_type,
                          eventData = Dict d, processedAt = processed_at e,
                          processingService = ''event-processor''\<rparr>)
            | Some err \<Rightarrow> store s)"
  using assms
  by (simp add: store_processed_event_def upsert_item_def proc_defs Let_def emit_def
           split: option.splits)

lemma store_after_deliveries:
  assumes "d ''OrderId'' = Some v"
  shows "store (fold (\<lambda>e s. snd (store_processed_event fmt e (Dict d) event_type s))
                  deliveries s)
           = (if filter (\<lambda>e. upsert_reply e = None) deliveries = [] then store s
              else (store s)(event_type @ ''_'' @ fmt v \<mapsto>
                     \<lparr>doc_id = event_type @ ''_'' @ fmt v, eventType = event_type,
                      eventData = Dict d,
                      processedAt =
                        processed_at (last (filter (\<lambda>e. upsert_reply e = None) deliveries)),
                      processingService = ''event-processor''\<rparr>))"
proof -
  define k where "k = event_type @ ''_'' @ fmt v"
  define doc where
    "doc = (\<lambda>e :: env. \<lparr>doc_id = event_type @ ''_'' @ fmt v, eventType = event_type,
                 eventData = Dict d, processedAt = processed_at e,
                 processingService = ''event-processor''\<rparr>)"
  have st: "store (snd (store_processed_event fmt e (Dict d) event_type x)) =
              (case upsert_reply e of None \<Rightarrow> (store x)(k \<mapsto> doc e) | Some err \<Rightarrow> store x)"
    for e and x :: "'a sys"
    unfolding k_def doc_def using assms by (rule store_after_write)
  have "store (fold (\<lambda>e s. snd (store_processed_event fmt e (Dict d) event_type s))
                  deliveries s)
           = (if filter (\<lambda>e. upsert_reply e = None) deliveries = [] then store s
              else (store s)(k \<mapsto> doc (last (filter (\<lambda>e. upsert_reply e = None) deliveries))))"
  proof (induction deliveries rule: rev_induct)
    case Nil
    show ?case by simp
  next
    case (snoc e es)
    show ?case
      by (cases "upsert_reply e") (auto simp: st snoc.IH)
  qed
  then show ?thesis unfolding k_def doc_def .
qed

text \<open>
  C1. For an event whose body has an \<open>OrderId\<close>, a store write that succeeds puts the
  document under the id \<open>{eventType}_{OrderId}\<close>, which only depends on the event, and
  a write that fails leaves the container as it was. So after any number of deliveries of
  the same event the container is what it was before, with, when at least one upsert
  succeeded, the one document of that id, written by the last upsert that succeeded: the
  ids of the container are those it had and that one id.
\<close>

theorem redelivery_is_idempotent:
  assumes "d ''OrderId'' = Some v"
  shows "store (snd (store_processed_event fmt e (Dict d) event_type s)) =
           (case upsert_reply e of
              None \<Rightarrow> (store s)(event_type @ ''_'' @ fmt v \<mapsto>
                         \<lparr>doc_id = event_type @ ''_'' @ fmt v, eventType = event_type,
                          eventData = Dict d, processedAt = processed_at e,
                          processingService = ''event-processor''\<rparr>)
            | Some err \<Rightarrow> store s)
         \<and> store (fold (\<lambda>e s. snd (store_processed_event fmt e (Dict d) event_type s))
                    deliveries s)
             = (if filter (\<lambda>e. upsert_reply e = None) deliveries = [] then store s
                else (store s)(event_type @ ''_'' @ fmt v \<mapsto>
                       \<lparr>doc_id = event_type @ ''_'' @ fmt v, eventType = event_type,
                        eventData = Dict d,
                        processedAt =
                          processed_at (last (filter (\<lambda>e. upsert_reply e = None) deliveries)),
                        processingService = ''event-processor''\<rparr>))
         \<and> dom (store (fold (\<lambda>e s. snd (store_processed_event fmt e (Dict d) event_type s))
                         deliveries s))
             = (if \<exists>e \<in> set deliveries. upsert_reply e = None
                then insert (event_type @ ''_'' @ fmt v) (dom (store s))
                else dom (store s))"
proof -
  have one: "store (snd (store_processed_event fmt e (Dict d) event_type s)) =
           (case upsert_reply e of
              None \<Rightarrow> (store s)(event_type @ ''_'' @ fmt v \<mapsto>
                         \<lparr>doc_id = event_type @ ''_'' @ fmt v, eventType = event_type,
                          eventData = Dict d, processedAt = processed_at e,
                          processingService = ''event-processor''\<rparr>)
            | Some err \<Rightarrow> store s)"
    using assms by (rule store_after_write)
  have all: "store (fold (\<lambda>e s. snd (store_processed_event fmt e (Dict d) event_type s))
                    deliveries s)
             = (if filter (\<lambda>e. upsert_reply e = None) deliveries = [] then store s
                else (store s)(event_type @ ''_'' @ fmt v \<mapsto>
                       \<lparr>doc_id = event_type @ ''_'' @ fmt v, eventType = event_type,
                        eventData = Dict d,
                        processedAt =
                          processed_at (last (filter (\<lambda>e. upsert_reply e = None) deliveries)),
                        processingService = ''event-processor''\<rparr>))"
    using assms by (rule store_after_deliveries)
  have ids: "dom (store (fold (\<lambda>e s. snd (store_processed_event fmt e (Dict d) event_type s))
                         deliveries s))
             = (if \<exists>e \<in> set deliveries. upsert_reply e = None
                then insert (event_type @ ''_'' @ fmt v) (dom (store s))
                else dom (store s))"
    unfolding all by (auto simp: filter_empty_conv)
  show ?thesis using one all ids by blast
qed

theorem redelivery_is_idempotent_witness:
  "[''OrderId'' \<mapsto> ''O1'', ''CustomerId'' \<mapsto> ''C1''] ''OrderId'' = Some ''O1''
   \<and> dom (store (fold (\<lambda>e s. snd (store_processed_event (\<lambda>v. v) e
                                 (Dict [''OrderId'' \<mapsto> ''O1'', ''CustomerId'' \<mapsto> ''C1''])
                                 ''OrderCreated'' s))
                   [sample_env, sample_env\<lparr>processed_at := ''2024-01-01T00:05:00''\<rparr>]
                   ready_processor))
       = {''OrderCreated_O1''}"
proof -
  have d: "[''OrderId'' \<mapsto> ''O1'', ''CustomerId'' \<mapsto> ''C1''] ''OrderId'' = Some ''O1''"
    by simp
  have "dom (store (fold (\<lambda>e s. snd (store_processed_event (\<lambda>v. v) e
                                 (Dict [''OrderId'' \<mapsto> ''O1'', ''CustomerId'' \<mapsto> ''C1''])
                                 ''OrderCreated'' s))
                   [sample_env, sample_env\<lparr>processed_at := ''2024-01-01T00:05:00''\<rparr>]
                   ready_processor))
       = (if \<exists>e \<in> set [sample_env, sample_env\<lparr>processed_at := ''2024-01-01T00:05:00''\<rparr>].
               upsert_reply e = None
          then insert (''OrderCreated'' @ ''_'' @ ''O1'') (dom (store (ready_processor :: string sys)))
          else dom (store (ready_processor :: string sys)))"
    using d
    by (rule redelivery_is_idempotent
          [where d = "[''OrderId'' \<mapsto> ''O1'', ''CustomerId'' \<mapsto> ''C1'']" and v = "''O1''"
             and fmt = "\<lambda>v. v" and event_type = "''OrderCreated''"
             and deliveries = "[sample_env, sample_env\<lparr>processed_at := ''2024-01-01T00:05:00''\<rparr>]"
             and s = ready_processor, THEN conjunct2, THEN conjunct2])
  then show ?thesis
    using d by (simp add: sample_env_def ready_processor_def new_event_processor_def)
qed

subsection \<open>Failures of the store write and of the cache write\<close>

lemma alike_raise: "alike (raise_exc e) (raise_exc e)"
  by (simp add: alike_def raise_exc_def)

lemma alike_skip: "alike (\<lambda>s. (Inr (), s)) (\<lambda>s. (Inr (), s))"
  by (simp add: alike_def)

lemma alike_emit:
  "filter (\<lambda>a. is_counter a \<or> is_checkpoint a) acts1
     = filter (\<lambda>a. is_counter a \<or> is_checkpoint a) acts2
   \<Longrightarrow> alike (step (emit acts1)) (step (emit acts2))"
  by (simp add: alike_def step_def fields_and_marks_def)

lemma alike_then_do:
  assumes "alike p1 p2" and "alike q1 q2"
  shows "alike (then_do p1 q1) (then_do p2 q2)"
proof -
  have "fst (then_do p1 q1 s1) = fst (then_do p2 q2 s2)
        \<and> fields_and_marks (snd (then_do p1 q1 s1)) = fields_and_marks (snd (then_do p2 q2 s2))"
    if eq: "fields_and_marks s1 = fields_and_marks s2" for s1 s2
  proof -
    obtain r1 t1 where a: "p1 s1 = (r1, t1)" by (cases "p1 s1")
    obtain r2 t2 where b: "p2 s2 = (r2, t2)" by (cases "p2 s2")
    have "fst (p1 s1) = fst (p2 s2)
          \<and> fields_and_marks (snd (p1 s1)) = fields_and_marks (snd (p2 s2))"
      using assms(1) eq unfolding alike_def by blast
    then have r: "r2 = r1" and t: "fields_and_marks t1 = fields_and_marks t2"
      using a b by simp_all
    show ?thesis
    proof (cases r1)
      case (Inl x)
      have "then_do p1 q1 s1 = (Inl x, t1)" and "then_do p2 q2 s2 = (Inl x, t2)"
        using a b r Inl by (simp_all add: then_do_def)
      then show ?thesis using t by simp
    next
      case (Inr u)
      have "then_do p1 q1 s1 = q1 t1" and "then_do p2 q2 s2 = q2 t2"
        using a b r Inr by (simp_all add: then_do_def)
      moreover have "fst (q1 t1) = fst (q2 t2)
            \<and> fields_and_marks (snd (q1 t1)) = fields_and_marks (snd (q2 t2))"
        using assms(2) t unfolding alike_def by blast
      ultimately show ?thesis by simp
    qed
  qed
  then show ?thesis unfolding alike_def by blast
qed

lemma alike_try_except:
  assumes "alike p1 p2" and "\<And>e. alike (h1 e) (h2 e)"
  shows "alike (try_except p1 h1) (try_except p2 h2)"
proof -
  have "fst (try_except p1 h1 s1) = fst (try_except p2 h2 s2)
        \<and> fields_and_marks (snd (try_except p1 h1 s1))
            = fields_and_marks (snd (try_except p2 h2 s2))"
    if eq: "fields_and_marks s1 = fields_and_marks s2" for s1 s2
  proof -
    obtain r1 t1 where a: "p1 s1 = (r1, t1)" by (cases "p1 s1")
    obtain r2 t2 where b: "p2 s2 = (r2, t2)" by (cases "p2 s2")
    have "fst (p1 s1) = fst (p2 s2)
          \<and> fields_and_marks (snd (p1 s1)) = fields_and_marks (snd (p2 s2))"
      using assms(1) eq unfolding alike_def by blast
    then have r: "r2 = r1" and t: "fields_and_marks t1 = fields_and_marks t2"
      using a b by simp_all
    show ?thesis
    proof (cases r1)
      case (Inl x)
      have "try_except p1 h1 s1 = h1 x t1" and "try_except p2 h2 s2 = h2 x t2"
        using a b r Inl by (simp_all add: try_except_def)
      moreover have "fst (h1 x t1) = fst (h2 x t2)
            \<and> fields_and_marks (snd (h1 x t1)) = fields_and_marks (snd (h2 x t2))"
        using assms(2) [of x] t unfolding alike_def by blast
      ultimately show ?thesis by simp
    next
      case (Inr u)
      have "try_except p1 h1 s1 = (Inr u, t1)" and "try_except p2 h2 s2 = (Inr u, t2)"
        using a b r Inr by (simp_all add: try_except_def)
      then show ?thesis using t by simp
    qed
  qed
  then show ?thesis unfolding alike_def by blast
qed

lemma alike_cond:
  assumes "\<And>s1 s2. fields_and_marks s1 = fields_and_marks s2 \<Longrightarrow> c s1 = c s2"
      and "alike p1 p2" and "alike q1 q2"
  shows "alike (\<lambda>s. if c s then p1 s else q1 s) (\<lambda>s. if c s then p2 s else q2 s)"
proof -
  have "fst (if c s1 then p1 s1 else q1 s1) = fst (if c s2 then p2 s2 else q2 s2)
        \<and> fields_and_marks (snd (if c s1 then p1 s1 else q1 s1))
            = fields_and_marks (snd (if c s2 then p2 s2 else q2 s2))"
    if eq: "fields_and_marks s1 = fields_and_marks s2" for s1 s2
  proof -
    have c: "c s1 = c s2" using eq by (rule assms(1))
    have p: "fst (p1 s1) = fst (p2 s2)
             \<and> fields_and_marks (snd (p1 s1)) = fields_and_marks (snd (p2 s2))"
      using assms(2) eq unfolding alike_def by blast
    have q: "fst (q1 s1) = fst (q2 s2)
             \<and> fields_and_marks (snd (q1 s1)) = fields_and_marks (snd (q2 s2))"
      using assms(3) eq unfolding alike_def by blast
    show ?thesis
    proof (cases "c s2")
      case True
      then have "c s1" using c by blast
      then show ?thesis using True p by (simp only: if_True)
    next
      case False
      then have "\<not> c s1" using c by blast
      then show ?thesis using False q by (simp only: if_False)
    qed
  qed
  then show ?thesis unfolding alike_def by blast
qed

lemma alike_returning:
  assumes "keeps fields_and_marks p" and "keeps fields_and_marks q"
      and "\<And>s. fst (p s) = Inr ()" and "\<And>s. fst (q s) = Inr ()"
  shows "alike p q"
proof -
  have "fst (p s1) = fst (q s2)
        \<and> fields_and_marks (snd (p s1)) = fields_and_marks (snd (q s2))"
    if eq: "fields_and_marks s1 = fields_and_marks s2" for s1 s2
  proof -
    have "fields_and_marks (snd (p s1)) = fields_and_marks s1"
      using assms(1) unfolding keeps_def by blast
    moreover have "fields_and_marks (snd (q s2)) = fields_and_marks s2"
      using assms(2) unfolding keeps_def by blast
    ultimately show ?thesis
      using eq assms(3) [of s1] assms(4) [of s2] by (simp only:) 
  qed
  then show ?thesis unfolding alike_def by blast
qed

lemma alike_maybe_inject_failure:
  assumes "latency_draw e1 = latency_draw e2" and "error_draw e1 = error_draw e2"
      and "error_choice e1 = error_choice e2"
  shows "alike (maybe_inject_failure e1 operation) (maybe_inject_failure e2 operation)"
proof -
  have "fst (maybe_inject_failure e1 operation s1) = fst (maybe_inject_failure e2 operation s2)
        \<and> fields_and_marks (snd (maybe_inject_failure e1 operation s1))
            = fields_and_marks (snd (maybe_inject_failure e2 operation s2))"
    if eq: "fields_and_marks s1 = fields_and_marks s2" for s1 s2 :: "'a sys"
  proof -
    have c: "config s1 = config s2"
      using eq by (simp add: fields_and_marks_def processor_fields_def)
    have f: "processor_fields s1 = processor_fields s2" and m: "marks s1 = marks s2"
      using eq by (simp_all add: fields_and_marks_def)
    show ?thesis
      using assms c f m
      by (simp add: maybe_inject_failure_def proc_defs fields_and_marks_def)
  qed
  then show ?thesis unfolding alike_def by blast
qed

lemma alike_if:
  "alike p1 p2 \<Longrightarrow> alike q1 q2 \<Longrightarrow> alike (if b then p1 else q1) (if b then p2 else q2)"
  by simp

lemma alike_handle_order_created:
  "alike (handle_order_created e1 event_data) (handle_order_created e2 event_data)"
  unfolding handle_order_created_def send_notification_def
  by (cases event_data) (auto intro!: alike_raise alike_then_do alike_emit)

lemma alike_handle_order_status_updated:
  "alike (handle_order_status_updated e1 event_data) (handle_order_status_updated e2 event_data)"
  unfolding handle_order_status_updated_def
  by (cases event_data) (auto intro!: alike_raise alike_emit)

lemma alike_handle_generic_event:
  "alike (handle_generic_event e1 event_data) (handle_generic_event e2 event_data)"
  unfolding handle_generic_event_def
  by (cases event_data) (auto intro!: alike_raise alike_then_do alike_emit)

lemma alike_store_processed_event:
  "alike (store_processed_event fmt e1 event_data event_type)
         (store_processed_event fmt e2 event_data event_type)"
  by (rule alike_returning)
     (simp_all add: quiet_store_processed_event store_processed_event_returns)

lemma alike_cache_event_summary:
  "alike (cache_event_summary e1 event_data event_type)
         (cache_event_summary e2 event_data event_type)"
  by (rule alike_returning)
     (simp_all add: quiet_cache_event_summary cache_event_summary_returns)

lemma cond_cosmos_container:
  "fields_and_marks s1 = fields_and_marks s2 \<Longrightarrow> cosmos_container s1 = cosmos_container s2"
  by (simp add: fields_and_marks_def processor_fields_def)

lemma cond_redis_client:
  "fields_and_marks s1 = fields_and_marks s2 \<Longrightarrow> redis_client s1 = redis_client s2"
  by (simp add: fields_and_marks_def processor_fields_def)

lemma alike_process_single_event:
  assumes "latency_draw e1 = latency_draw e2" and "error_draw e1 = error_draw e2"
      and "error_choice e1 = error_choice e2"
  shows "alike (process_single_event fmt e1 event) (process_single_event fmt e2 event)"
proof (cases "decoded event")
  case (Inl err)
  show ?thesis
    unfolding process_single_event_def Inl sum.case
    by (intro alike_try_except alike_raise alike_emit refl)
next
  case (Inr event_body)
  show ?thesis
    unfolding process_single_event_def Inr sum.case Let_def
    by (intro alike_try_except alike_then_do alike_if alike_cond alike_skip alike_emit
              alike_maybe_inject_failure [OF assms]
              alike_handle_order_created alike_handle_order_status_updated
              alike_handle_generic_event alike_store_processed_event
              alike_cache_event_summary cond_cosmos_container cond_redis_client refl)
qed

lemma store_failure_is_recorded:
  assumes "upsert_reply e = Some error_str"
      and "\<not> (str_contains ''Conflict'' error_str \<and> str_contains ''409'' error_str)"
  shows "store_processed_event fmt e (Dict d) event_type s
           = (Inr (), emit [RecordException ''store_processed_event'' error_str,
                            Log Error ''Failed to store event in Cosmos DB''] s)"
  using assms
  by (auto simp: store_processed_event_def upsert_item_def proc_defs Let_def)

lemma cache_failure_is_logged:
  assumes "lpush_reply e \<noteq> None \<or> ltrim_reply e \<noteq> None \<or> expire_reply e \<noteq> None"
  shows "fst (cache_event_summary e event_data event_type s) = Inr ()
         \<and> trace (snd (cache_event_summary e event_data event_type s))
             = trace s @ [Log Error ''Failed to cache event summary'']"
  using assms
  by (auto simp: cache_event_summary_def lpush_def ltrim_def expire_def proc_defs Let_def
           split: option.splits)

lemma fst_then_do: "fst (p s) = Inr () \<Longrightarrow> fst (then_do p q s) = fst (q (snd (p s)))"
  by (cases "p s") (simp add: then_do_def)

lemma maybe_inject_failure_returns:
  "\<not> (FAILURE_INJECTION_ENABLED (config s)
       \<and> error_draw e < ERROR_INJECTION_PROBABILITY (config s))
   \<Longrightarrow> fst (maybe_inject_failure e operation s) = Inr ()"
  by (auto simp: maybe_inject_failure_def proc_defs)

lemma handle_order_created_returns: "fst (handle_order_created e (Dict d) s) = Inr ()"
  by (simp add: handle_order_created_def send_notification_def proc_defs)

lemma handle_order_status_updated_returns:
  "fst (handle_order_status_updated e (Dict d) s) = Inr ()"
  by (simp add: handle_order_status_updated_def proc_defs)

lemma handle_generic_event_returns: "fst (handle_generic_event e (Dict d) s) = Inr ()"
  by (simp add: handle_generic_event_def proc_defs)

lemma marks_try_except_returns:
  assumes "fst (p s) = Inr ()" and "ends_with fin p"
  shows "marks (snd (try_except p h s)) = marks s @ fin"
proof -
  obtain s' where p: "p s = (Inr (), s')"
    using assms(1) by (cases "p s") simp
  have "marks (snd (p s)) = (case fst (p s) of Inl e \<Rightarrow> marks s | Inr u \<Rightarrow> marks s @ fin)"
    using assms(2) unfolding ends_with_def by blast
  then show ?thesis using p by (simp add: try_except_def)
qed

lemma processed_event_is_counted:
  assumes "decoded event = Inr (Dict d)"
      and "\<not> (FAILURE_INJECTION_ENABLED (config s)
              \<and> error_draw e < ERROR_INJECTION_PROBABILITY (config s))"
  shows "marks (snd (process_single_event fmt e event s))
           = marks s @ [EventsProcessed
                          (case properties event ''EventType'' of Some t \<Rightarrow> t | None \<Rightarrow> ''Unknown'')
                          (case properties event ''Source'' of Some t \<Rightarrow> t | None \<Rightarrow> ''Unknown'')]"
  unfolding process_single_event_def assms(1) sum.case Let_def
  apply (rule marks_try_except_returns)
   apply (insert assms(2))
   apply (simp add: fst_then_do maybe_inject_failure_returns handle_order_created_returns
            handle_order_status_updated_returns handle_generic_event_returns
            store_processed_event_returns cache_event_summary_returns step_def emit_def)
  apply (auto intro!: ends_with_then_do ends_with_emit keeps_step keeps_cond keeps_skip
                      marks_components)
  done

text \<open>
  C5. A failure of the store write that is not a write conflict is caught inside
  \<open>store_processed_event\<close>, which records the exception on its span, logs the error
  "Failed to store event in Cosmos DB" and returns. A failure of any of the three cache
  commands is caught inside \<open>cache_event_summary\<close>, which logs the error "Failed to
  cache event summary" and returns. Neither reaches \<open>process_single_event\<close>, which never
  raises: the counters of an event are those of the same event with all four commands
  succeeding; an event with a dict body into which no error is injected is counted as
  processed whatever the store and the cache reply; and the events that follow it in the
  batch are processed.
\<close>

theorem write_failures_do_not_propagate:
  "(upsert_reply e = Some error_str
      \<and> \<not> (str_contains ''Conflict'' error_str \<and> str_contains ''409'' error_str)
    \<longrightarrow> store_processed_event fmt e (Dict d) event_type s
          = (Inr (), emit [RecordException ''store_processed_event'' error_str,
                           Log Error ''Failed to store event in Cosmos DB''] s))
   \<and> (lpush_reply e \<noteq> None \<or> ltrim_reply e \<noteq> None \<or> expire_reply e \<noteq> None
    \<longrightarrow> fst (cache_event_summary e event_data event_type s) = Inr ()
        \<and> trace (snd (cache_event_summary e event_data event_type s))
            = trace s @ [Log Error ''Failed to cache event summary''])
   \<and> fst (process_single_event fmt e event s) = Inr ()
   \<and> marks (snd (process_single_event fmt e event s))
       = marks (snd (process_single_event fmt
                       (e\<lparr>upsert_reply := None, lpush_reply := None,
                          ltrim_reply := None, expire_reply := None\<rparr>) event s))
   \<and> (decoded event = Inr (Dict d)
        \<and> \<not> (FAILURE_INJECTION_ENABLED (config s)
             \<and> error_draw e < ERROR_INJECTION_PROBABILITY (config s))
    \<longrightarrow> marks (snd (process_single_event fmt e event s))
          = marks s @ [EventsProcessed
                         (case properties event ''EventType'' of Some t \<Rightarrow> t | None \<Rightarrow> ''Unknown'')
                         (case properties event ''Source'' of Some t \<Rightarrow> t | None \<Rightarrow> ''Unknown'')])
   \<and> for_events fmt (earlier @ (event, e) # later) s
       = for_events fmt later
           (snd (process_single_event fmt e event (snd (for_events fmt earlier s))))"
proof -
  have "alike (process_single_event fmt e event)
              (process_single_event fmt
                 (e\<lparr>upsert_reply := None, lpush_reply := None,
                    ltrim_reply := None, expire_reply := None\<rparr>) event)"
    by (rule alike_process_single_event) simp_all
  then have "fields_and_marks (snd (process_single_event fmt e event s))
       = fields_and_marks (snd (process_single_event fmt
                       (e\<lparr>upsert_reply := None, lpush_reply := None,
                          ltrim_reply := None, expire_reply := None\<rparr>) event s))"
    unfolding alike_def by blast
  then have m: "marks (snd (process_single_event fmt e event s))
       = marks (snd (process_single_event fmt
                       (e\<lparr>upsert_reply := None, lpush_reply := None,
                          ltrim_reply := None, expire_reply := None\<rparr>) event s))"
    by (simp add: fields_and_marks_def)
  obtain r s' where r: "process_single_event fmt e event (snd (for_events fmt earlier s)) = (r, s')"
    by (cases "process_single_event fmt e event (snd (for_events fmt earlier s))")
  have "r = Inr ()"
    using process_single_event_returns [of fmt e event "snd (for_events fmt earlier s)"] r
    by simp
  then have f: "for_events fmt (earlier @ (event, e) # later) s
       = for_events fmt later
           (snd (process_single_event fmt e event (snd (for_events fmt earlier s))))"
    using r by (simp add: for_events_append)
  show ?thesis
    using m f store_failure_is_recorded [of e error_str fmt d event_type s]
          cache_failure_is_logged [of e event_data event_type s]
          process_single_event_returns [of fmt e event s]
          processed_event_is_counted [of event d s e fmt]
    by blast
qed

theorem write_failures_do_not_propagate_witness:
  "upsert_reply failing_env = Some ''ServiceUnavailable: 503''
   \<and> \<not> (str_contains ''Conflict'' ''ServiceUnavailable: 503''
        \<and> str_contains ''409'' ''ServiceUnavailable: 503'')
   \<and> lpush_reply failing_env \<noteq> None
   \<and> store_processed_event (\<lambda>v. v) failing_env
        (Dict [''OrderId'' \<mapsto> ''O1'', ''CustomerId'' \<mapsto> ''C1'']) ''OrderCreated'' ready_processor
       = (Inr (), emit [RecordException ''store_processed_event'' ''ServiceUnavailable: 503'',
                        Log Error ''Failed to store event in Cosmos DB''] ready_processor)
   \<and> trace (snd (cache_event_summary failing_env sample_body ''OrderCreated'' ready_processor))
       = trace ready_processor @ [Log Error ''Failed to cache event summary'']
   \<and> marks (snd (process_single_event (\<lambda>v. v) failing_env sample_event ready_processor))
       = [EventsProcessed ''OrderCreated'' ''orders'']"
proof -
  have a: "upsert_reply failing_env = Some ''ServiceUnavailable: 503''"
    and b: "\<not> (str_contains ''Conflict'' ''ServiceUnavailable: 503''
              \<and> str_contains ''409'' ''ServiceUnavailable: 503'')"
    and c: "lpush_reply failing_env \<noteq> None"
    by (simp_all add: failing_env_def)
  have ok: "marks (snd (process_single_event (\<lambda>v. v)
                     (failing_env\<lparr>upsert_reply := None, lpush_reply := None,
                                  ltrim_reply := None, expire_reply := None\<rparr>)
                     sample_event ready_processor))
              = [EventsProcessed ''OrderCreated'' ''orders'']"
    by (simp add: process_single_event_def sample_event_def sample_body_def failing_env_def
          sample_env_def ready_processor_def new_event_processor_def default_config_def
          maybe_inject_failure_def handle_order_created_def send_notification_def
          store_processed_event_def upsert_item_def cache_event_summary_def lpush_def
          ltrim_def expire_def proc_defs Let_def marks_def emit_def)
  from write_failures_do_not_propagate
         [where e = failing_env and error_str = "''ServiceUnavailable: 503''"
            and fmt = "\<lambda>v. v" and d = "[''OrderId'' \<mapsto> ''O1'', ''CustomerId'' \<mapsto> ''C1'']"
            and event_type = "''OrderCreated''" and s = ready_processor
            and event_data = sample_body and event = sample_event]
  show ?thesis using a b c ok by simp
qed

end
